theory Spec2Isabelle
  imports Main
begin

section \<open>Library functions the server calls\<close>

text \<open>
  The server is a Go program; strings are byte sequences, modelled as \<open>string\<close>.
  The functions of this section are the ones of Go's \<open>strings\<close> and \<open>path/filepath\<close>
  packages that the handlers call, in their Unix form (separator \<open>/\<close>, no volume names).
\<close>

definition sep :: char where
  "sep = CHR ''/''"

text \<open>
  \<open>strings.ToLower\<close> on ASCII text: the letters \<open>A\<close> to \<open>Z\<close> are lowered and every
  other byte is kept. Go also lowers the letters outside ASCII and replaces bytes that
  are not UTF-8, which can change the length of the string; the model is exact only for
  paths that are ASCII.
\<close>

definition lowerChar :: "char \<Rightarrow> char" where
  "lowerChar c =
     (case map_of (zip ''ABCDEFGHIJKLMNOPQRSTUVWXYZ'' ''abcdefghijklmnopqrstuvwxyz'') c of
        None \<Rightarrow> c
      | Some l \<Rightarrow> l)"

definition strings_ToLower :: "string \<Rightarrow> string" where
  "strings_ToLower s = map lowerChar s"

text \<open>\<open>strings.HasPrefix(s, prefix)\<close>: \<open>len(s) >= len(prefix) && s[:len(prefix)] == prefix\<close>.\<close>

definition strings_HasPrefix :: "string \<Rightarrow> string \<Rightarrow> bool" where
  "strings_HasPrefix s p = (length p \<le> length s \<and> take (length p) s = p)"

text \<open>\<open>strings.Trim(s, cutset)\<close>: all leading and trailing bytes of the cutset removed.\<close>

definition strings_Trim :: "string \<Rightarrow> string \<Rightarrow> string" where
  "strings_Trim s cutset =
     rev (dropWhile (\<lambda>c. c \<in> set cutset) (rev (dropWhile (\<lambda>c. c \<in> set cutset) s)))"

text \<open>The cutset of both trimming handlers: slash, backslash, space, double quote.\<close>

definition trimCutset :: string where
  "trimCutset = [CHR ''/'', CHR 0x5C, CHR '' '', CHR 0x22]"

text \<open>
  \<open>filepath.Clean\<close> works on the elements between separators: empty elements and \<open>.\<close>
  are dropped; \<open>..\<close> removes the element before it, is dropped at the top of a rooted
  path, and is kept at the front of a relative one; the empty result is \<open>.\<close>.
\<close>

fun splitSep :: "string \<Rightarrow> string list" where
  "splitSep [] = [[]]"
| "splitSep (c # cs) =
     (if c = sep then [] # splitSep cs
      else (c # hd (splitSep cs)) # tl (splitSep cs))"

fun joinSep :: "string list \<Rightarrow> string" where
  "joinSep [] = []"
| "joinSep [e] = e"
| "joinSep (e # es) = e @ sep # joinSep es"

definition dot :: string where
  "dot = ''.''"

definition dotdot :: string where
  "dotdot = ''..''"

definition pathElems :: "string \<Rightarrow> string list" where
  "pathElems p = filter (\<lambda>e. e \<noteq> [] \<and> e \<noteq> dot) (splitSep p)"

text \<open>
  The output buffer of \<open>Clean\<close> as a stack of elements, last written first. A \<open>..\<close> is
  on the stack only as part of the leading \<open>../..\<close> of a relative path, where Go's
  \<open>dotdot\<close> index stops the backtracking.
\<close>

fun cleanElems :: "bool \<Rightarrow> string list \<Rightarrow> string list \<Rightarrow> string list" where
  "cleanElems rooted out [] = rev out"
| "cleanElems rooted out (e # es) =
     (if e = dotdot then
        (case out of
           [] \<Rightarrow> if rooted then cleanElems rooted [] es else cleanElems rooted [e] es
         | t # ts \<Rightarrow> if t = dotdot then cleanElems rooted (e # out) es
                     else cleanElems rooted ts es)
      else cleanElems rooted (e # out) es)"

definition filepath_IsAbs :: "string \<Rightarrow> bool" where
  "filepath_IsAbs p = strings_HasPrefix p [sep]"

definition filepath_Clean :: "string \<Rightarrow> string" where
  "filepath_Clean p =
     (let rooted = filepath_IsAbs p;
          out = cleanElems rooted [] (pathElems p)
      in if rooted then sep # joinSep out
         else if out = [] then dot else joinSep out)"

text \<open>
  \<open>filepath.Join\<close> of two elements: empty elements are ignored, the rest joined by a
  separator and cleaned; all empty gives the empty string.
\<close>

definition filepath_Join :: "string \<Rightarrow> string \<Rightarrow> string" where
  "filepath_Join a b =
     (if a \<noteq> [] then filepath_Clean (a @ sep # b)
      else if b \<noteq> [] then filepath_Clean b
      else [])"

text \<open>
  \<open>filepath.Dir\<close>: everything up to and including the last separator, cleaned.
\<close>

definition uptoLastSep :: "string \<Rightarrow> string" where
  "uptoLastSep p = rev (dropWhile (\<lambda>c. c \<noteq> sep) (rev p))"

definition filepath_Dir :: "string \<Rightarrow> string" where
  "filepath_Dir p = filepath_Clean (uptoLastSep p)"

text \<open>
  \<open>filepath.Abs\<close>: an absolute path is cleaned, a relative one is joined to the working
  directory of the process, here the argument \<open>wd\<close> (what \<open>os.Getwd\<close> returns).
\<close>

definition filepath_Abs :: "string \<Rightarrow> string \<Rightarrow> string" where
  "filepath_Abs wd p = (if filepath_IsAbs p then filepath_Clean p else filepath_Join wd p)"

section \<open>The server state and the operating system\<close>

text \<open>
  \<open>type Session struct { CurrentDir string; LastAccess time.Time }\<close>. Times are
  nanoseconds on the process clock, as integers.
\<close>

record Session =
  CurrentDir :: string
  LastAccess :: int

text \<open>
  The file system is an association list from absolute cleaned paths to nodes; there are
  no symbolic links and no permissions in it. \<open>oscall\<close> names the file-system calls the
  handlers make, with the path as the handler passes it.
\<close>

datatype node = Directory | RegularFile string

datatype errno = ENOENT | EEXIST | ENOTDIR | ENOTEMPTY | EISDIR

datatype oscall =
  Stat string | Chdir string | Mkdir string | Remove string | Create string | Open string
  | Exec string

text \<open>
  The globals \<open>originalRoot\<close> and \<open>sessionStore.sessions\<close>, and the part of the process's
  environment the handlers read and write: its working directory, the file system, and
  the calls made so far, oldest first.
\<close>

record server =
  originalRoot :: string
  sessions :: "string \<rightharpoonup> Session"
  cwd :: string
  files :: "(string \<times> node) list"
  oscalls :: "oscall list"

definition logCall :: "oscall \<Rightarrow> server \<Rightarrow> server" where
  "logCall c st = st\<lparr>oscalls := oscalls st @ [c]\<rparr>"

definition lookupNode :: "server \<Rightarrow> string \<Rightarrow> node option" where
  "lookupNode st q = map_of (files st) q"

text \<open>
  The proper ancestors of an absolute path, nearest first, from its elements given last
  first: for \<open>/a/b/c\<close> they are \<open>/a/b\<close>, \<open>/a\<close> and \<open>/\<close>.
\<close>

fun ancestorPaths :: "string list \<Rightarrow> string list" where
  "ancestorPaths [] = []"
| "ancestorPaths (e # up) = (sep # joinSep (rev up)) # ancestorPaths up"

text \<open>
  The error of a path that does not resolve: \<open>ENOTDIR\<close> when the nearest ancestor
  that exists is a file, \<open>ENOENT\<close> otherwise.
\<close>

definition missingError :: "server \<Rightarrow> string \<Rightarrow> errno" where
  "missingError st q =
     (case find (\<lambda>a. lookupNode st a \<noteq> None) (ancestorPaths (rev (pathElems q))) of
        None \<Rightarrow> ENOENT
      | Some a \<Rightarrow>
          (case lookupNode st a of
             Some (RegularFile _) \<Rightarrow> ENOTDIR
           | _ \<Rightarrow> ENOENT))"

text \<open>
  The path a system call works on: the empty path is refused with \<open>ENOENT\<close>, a relative
  one is taken from the working directory of the process.
\<close>

definition resolvePath :: "server \<Rightarrow> string \<Rightarrow> errno + string" where
  "resolvePath st p = (if p = [] then Inl ENOENT else Inr (filepath_Abs (cwd st) p))"

definition hasEntries :: "server \<Rightarrow> string \<Rightarrow> bool" where
  "hasEntries st q = (filter (\<lambda>k. k \<noteq> q \<and> filepath_Dir k = q) (map fst (files st)) \<noteq> [])"

definition unlinkNode :: "string \<Rightarrow> server \<Rightarrow> server" where
  "unlinkNode q st = st\<lparr>files := filter (\<lambda>kv. fst kv \<noteq> q) (files st)\<rparr>"

definition os_Stat :: "string \<Rightarrow> server \<Rightarrow> (errno + node) \<times> server" where
  "os_Stat p st =
     (let st' = logCall (Stat p) st
      in case resolvePath st p of
           Inl err \<Rightarrow> (Inl err, st')
         | Inr q \<Rightarrow>
             (case lookupNode st q of
                None \<Rightarrow> (Inl (missingError st q), st')
              | Some n \<Rightarrow> (Inr n, st')))"

definition os_Chdir :: "string \<Rightarrow> server \<Rightarrow> errno option \<times> server" where
  "os_Chdir p st =
     (let st' = logCall (Chdir p) st
      in case resolvePath st p of
           Inl err \<Rightarrow> (Some err, st')
         | Inr q \<Rightarrow>
             (case lookupNode st q of
                None \<Rightarrow> (Some (missingError st q), st')
              | Some (RegularFile _) \<Rightarrow> (Some ENOTDIR, st')
              | Some Directory \<Rightarrow> (None, st'\<lparr>cwd := q\<rparr>)))"

definition os_Mkdir :: "string \<Rightarrow> server \<Rightarrow> errno option \<times> server" where
  "os_Mkdir p st =
     (let st' = logCall (Mkdir p) st
      in case resolvePath st p of
           Inl err \<Rightarrow> (Some err, st')
         | Inr q \<Rightarrow>
             (case lookupNode st (filepath_Dir q) of
                None \<Rightarrow> (Some (missingError st q), st')
              | Some (RegularFile _) \<Rightarrow> (Some ENOTDIR, st')
              | Some Directory \<Rightarrow>
                  (if lookupNode st q \<noteq> None then (Some EEXIST, st')
                   else (None, st'\<lparr>files := (q, Directory) # files st\<rparr>))))"

text \<open>\<open>os.Remove\<close> removes a file or an empty directory.\<close>

definition os_Remove :: "string \<Rightarrow> server \<Rightarrow> errno option \<times> server" where
  "os_Remove p st =
     (let st' = logCall (Remove p) st
      in case resolvePath st p of
           Inl err \<Rightarrow> (Some err, st')
         | Inr q \<Rightarrow>
             (case lookupNode st q of
                None \<Rightarrow> (Some (missingError st q), st')
              | Some (RegularFile _) \<Rightarrow> (None, unlinkNode q st')
              | Some Directory \<Rightarrow>
                  (if hasEntries st q then (Some ENOTEMPTY, st')
                   else (None, unlinkNode q st'))))"

text \<open>
  \<open>os.Create\<close> followed by \<open>io.Copy\<close> of the uploaded bytes: the file is created or
  truncated, then written. A write that fails after a successful create is not modelled.
\<close>

definition os_Create :: "string \<Rightarrow> string \<Rightarrow> server \<Rightarrow> errno option \<times> server" where
  "os_Create p content st =
     (let st' = logCall (Create p) st
      in case resolvePath st p of
           Inl err \<Rightarrow> (Some err, st')
         | Inr q \<Rightarrow>
             (case lookupNode st (filepath_Dir q) of
                None \<Rightarrow> (Some (missingError st q), st')
              | Some (RegularFile _) \<Rightarrow> (Some ENOTDIR, st')
              | Some Directory \<Rightarrow>
                  (if lookupNode st q = Some Directory then (Some EISDIR, st')
                   else (None, (unlinkNode q st')\<lparr>files := (q, RegularFile content) #
                                                        files (unlinkNode q st')\<rparr>))))"

definition os_Open :: "string \<Rightarrow> server \<Rightarrow> (errno + node) \<times> server" where
  "os_Open p st =
     (let st' = logCall (Open p) st
      in case resolvePath st p of
           Inl err \<Rightarrow> (Inl err, st')
         | Inr q \<Rightarrow>
             (case lookupNode st q of
                None \<Rightarrow> (Inl (missingError st q), st')
              | Some n \<Rightarrow> (Inr n, st')))"

section \<open>Requests and replies\<close>

text \<open>
  What a handler reads from the request: the value of the cookie \<open>session_id\<close> if the
  client sent one, the query parameters \<open>dir\<close> and \<open>file\<close> (empty when absent), and the
  multipart form of an upload.
\<close>

datatype upload_form = BadForm | NoFilePart | FilePart string string

record Request =
  cookie :: "string option"
  q_dir :: string
  q_file :: string
  form :: upload_form

text \<open>
  What a request takes from outside the program: the identifier \<open>generateSessionID\<close>
  returns, the readings of \<open>time.Now()\<close> in the wrapper and in the handler, and the
  outcome of the external listing command (\<open>Inl\<close> its error text).
\<close>

record Env =
  freshID :: string
  clock :: int
  clock2 :: int
  lsResult :: "string + string"

text \<open>Status code and body; the wrapper adds the cookie it set, if any.\<close>

type_synonym reply = "nat \<times> string"

record response =
  status :: nat
  body :: string
  setCookie :: "string option"

definition newline :: char where
  "newline = CHR 0x0A"

text \<open>\<open>http.Error(w, msg, code)\<close> and \<open>fmt.Fprintln(w, msg)\<close> both end the body with a newline.\<close>

definition httpError :: "string \<Rightarrow> nat \<Rightarrow> reply" where
  "httpError msg code = (code, msg @ [newline])"

definition httpOkLn :: "string \<Rightarrow> reply" where
  "httpOkLn msg = (200, msg @ [newline])"

section \<open>The path check\<close>

text \<open>
  \<open>isPathSafe\<close>: both paths made absolute, lowered, and compared by string prefix.
\<close>

definition isPathSafe :: "server \<Rightarrow> string \<Rightarrow> bool" where
  "isPathSafe st path =
     (let absPath = filepath_Abs (cwd st) path;
          absRoot = filepath_Abs (cwd st) (originalRoot st)
      in strings_HasPrefix (strings_ToLower absPath) (strings_ToLower absRoot))"

section \<open>Sessions\<close>

definition newSession :: "server \<Rightarrow> int \<Rightarrow> Session" where
  "newSession st now = \<lparr>CurrentDir = originalRoot st, LastAccess = now\<rparr>"

text \<open>
  The first critical sections of \<open>withSession\<close>: without a cookie, or with one the
  store does not know, a session at the root is stored under a fresh identifier, which is
  sent back as the new cookie; a known session has its access time refreshed. The result
  is the identifier the wrapper goes on with, the cookie it set, and the new state.
\<close>

definition bindSession :: "Request \<Rightarrow> Env \<Rightarrow> server \<Rightarrow> string \<times> string option \<times> server" where
  "bindSession r e st =
     (case cookie r of
        None \<Rightarrow>
          (freshID e, Some (freshID e),
           st\<lparr>sessions := (sessions st)(freshID e \<mapsto> newSession st (clock e))\<rparr>)
      | Some v \<Rightarrow>
          (case sessions st v of
             None \<Rightarrow>
               (freshID e, Some (freshID e),
                st\<lparr>sessions := (sessions st)(freshID e \<mapsto> newSession st (clock e))\<rparr>)
           | Some session \<Rightarrow>
               (v, None,
                st\<lparr>sessions := (sessions st)(v \<mapsto> session\<lparr>LastAccess := clock e\<rparr>)\<rparr>)))"

text \<open>
  The last critical section of \<open>withSession\<close>: \<open>sessionStore.sessions[sessionID.Value]\<close>.
  Reading a Go map at a missing key gives the zero value of the element type.
\<close>

definition zeroSession :: Session where
  "zeroSession = \<lparr>CurrentDir = [], LastAccess = 0\<rparr>"

definition readSession :: "string \<Rightarrow> server \<Rightarrow> Session" where
  "readSession sid st = (case sessions st sid of None \<Rightarrow> zeroSession | Some s \<Rightarrow> s)"

type_synonym handler = "Request \<Rightarrow> Env \<Rightarrow> string \<Rightarrow> server \<Rightarrow> reply \<times> server"

definition callHandler ::
  "handler \<Rightarrow> Request \<Rightarrow> Env \<Rightarrow> string \<Rightarrow> string option \<Rightarrow> server \<Rightarrow> response \<times> server" where
  "callHandler fn r e sid sc st =
     (case fn r e (CurrentDir (readSession sid st)) st of
        ((code, msg), st') \<Rightarrow> (\<lparr>status = code, body = msg, setCookie = sc\<rparr>, st'))"

text \<open>\<open>withSession\<close> for a request that runs with no other request or sweep in between.\<close>

definition withSession :: "handler \<Rightarrow> Request \<Rightarrow> Env \<Rightarrow> server \<Rightarrow> response \<times> server" where
  "withSession fn r e st =
     (case bindSession r e st of (sid, sc, st1) \<Rightarrow> callHandler fn r e sid sc st1)"

text \<open>
  One pass of the loop of \<open>cleanupSessions\<close>, at time \<open>now\<close>: every session with
  \<open>time.Since(sess.LastAccess) > 5*time.Minute\<close> is deleted.
\<close>

definition fiveMinutes :: int where
  "fiveMinutes = 5 * 60 * 1000000000"

definition cleanupSessions :: "int \<Rightarrow> server \<Rightarrow> server" where
  "cleanupSessions now st =
     st\<lparr>sessions := (\<lambda>id. case sessions st id of
                            None \<Rightarrow> None
                          | Some sess \<Rightarrow>
                              if now - LastAccess sess > fiveMinutes then None else Some sess)\<rparr>"

section \<open>The handlers\<close>

definition listFiles :: handler where
  "listFiles r e currentDir st =
     (case lsResult e of
        Inl err \<Rightarrow> (httpError (''Error executing command: '' @ err) 500,
                    logCall (Exec currentDir) st)
      | Inr output \<Rightarrow> ((200, output), logCall (Exec currentDir) st))"

definition uploadFile :: handler where
  "uploadFile r e currentDir st =
     (case form r of
        BadForm \<Rightarrow> (httpError ''Error parsing form'' 400, st)
      | NoFilePart \<Rightarrow> (httpError ''Error retrieving file'' 400, st)
      | FilePart filename content \<Rightarrow>
          (let filePath = filepath_Join currentDir filename
           in if \<not> isPathSafe st filePath then (httpError ''Invalid path'' 400, st)
              else case os_Create filePath content st of
                     (Some err, st1) \<Rightarrow> (httpError ''Error creating file'' 500, st1)
                   | (None, st1) \<Rightarrow> (httpOkLn ''File uploaded successfully'', st1)))"

text \<open>Of a download only status and body are modelled, not the two headers.\<close>

definition downloadFile :: handler where
  "downloadFile r e currentDir st =
     (let fileName = q_file r;
          filePath = filepath_Join currentDir fileName
      in if \<not> isPathSafe st filePath then (httpError ''Invalid path'' 400, st)
         else case os_Open filePath st of
                (Inl err, st1) \<Rightarrow> (httpError ''File not found'' 404, st1)
              | (Inr Directory, st1) \<Rightarrow> ((200, []), st1)
              | (Inr (RegularFile content), st1) \<Rightarrow> ((200, content), st1))"

definition deleteFile :: handler where
  "deleteFile r e currentDir st =
     (let fileName = q_file r;
          filePath = filepath_Join currentDir fileName
      in if \<not> isPathSafe st filePath then (httpError ''Invalid path'' 400, st)
         else case os_Remove filePath st of
                (Some err, st1) \<Rightarrow> (httpError ''Error deleting file'' 500, st1)
              | (None, st1) \<Rightarrow> (httpOkLn ''File deleted successfully'', st1))"

text \<open>The \<open>switch dirName\<close> of \<open>changeDirectory\<close>: the directory asked for.\<close>

definition cdTarget :: "server \<Rightarrow> string \<Rightarrow> string \<Rightarrow> string" where
  "cdTarget st currentDir dirName =
     (if dirName = ''..'' then filepath_Dir currentDir
      else if dirName = ''root'' then originalRoot st
      else filepath_Clean (filepath_Join currentDir dirName))"

text \<open>
  The handler reads the cookie of the request again, so it commits under the identifier
  the client sent, also when the wrapper has just replaced it by a fresh one.
\<close>

definition changeDirectory :: handler where
  "changeDirectory r e currentDir st =
     (let dirName = strings_Trim (q_dir r) trimCutset
      in if dirName = [] then (httpError ''Invalid directory name'' 400, st)
         else
           let newDir = cdTarget st currentDir dirName
           in case os_Stat newDir st of
                (Inl err, st1) \<Rightarrow>
                  (if err = ENOENT then (httpError ''Directory not found'' 404, st1)
                   else (httpError ''Error accessing directory'' 500, st1))
              | (Inr info, st1) \<Rightarrow>
                  if info \<noteq> Directory then (httpError ''Not a directory'' 400, st1)
                  else if \<not> isPathSafe st1 newDir then (httpError ''Invalid path'' 400, st1)
                  else
                    (case os_Chdir newDir st1 of
                       (Some err, st2) \<Rightarrow> (httpError ''Error changing directory'' 500, st2)
                     | (None, st2) \<Rightarrow>
                         (case cookie r of
                            None \<Rightarrow> (httpError ''Session error'' 500, st2)
                          | Some v \<Rightarrow>
                              ((200, ''Directory changed to '' @ newDir),
                               st2\<lparr>sessions := (sessions st2)
                                  (v \<mapsto> \<lparr>CurrentDir = newDir, LastAccess = clock2 e\<rparr>)\<rparr>))))"

definition createDirectory :: handler where
  "createDirectory r e currentDir st =
     (let dirName = strings_Trim (q_dir r) trimCutset
      in if dirName = [] then (httpError ''Invalid directory name'' 400, st)
         else
           let dirPath = filepath_Clean (filepath_Join currentDir dirName)
           in if \<not> isPathSafe st dirPath then (httpError ''Invalid path'' 400, st)
              else case os_Mkdir dirPath st of
                     (Some err, st1) \<Rightarrow> (httpError ''Error creating directory'' 500, st1)
                   | (None, st1) \<Rightarrow> (httpOkLn ''Directory created'', st1))"

definition handleQuit :: handler where
  "handleQuit r e currentDir st =
     (case cookie r of
        None \<Rightarrow> (httpOkLn ''Connection closed'', st)
      | Some v \<Rightarrow> (httpOkLn ''Connection closed'', st\<lparr>sessions := (sessions st)(v := None)\<rparr>))"

section \<open>The server as a whole\<close>

text \<open>
  \<open>main\<close> fixes the root as the absolute path of the folder given on the command line
  and starts with an empty store.
\<close>

definition startServer :: "string \<Rightarrow> string \<Rightarrow> (string \<times> node) list \<Rightarrow> server" where
  "startServer wd rootFolder fs =
     \<lparr>originalRoot = filepath_Abs wd rootFolder, sessions = Map.empty, cwd = wd,
      files = fs, oscalls = []\<rparr>"

datatype endpoint = Files | Upload | Download | Delete | Cd | MkdirEp | Quit

fun route :: "endpoint \<Rightarrow> handler" where
  "route Files = listFiles"
| "route Upload = uploadFile"
| "route Download = downloadFile"
| "route Delete = deleteFile"
| "route Cd = changeDirectory"
| "route MkdirEp = createDirectory"
| "route Quit = handleQuit"

text \<open>
  What happens to the server, one event after the other: a request served to its end,
  or a pass of the sweep.
\<close>

datatype event = Req endpoint Request Env | Sweep int

fun step :: "event \<Rightarrow> server \<Rightarrow> server" where
  "step (Req ep r e) st = snd (withSession (route ep) r e st)"
| "step (Sweep now) st = cleanupSessions now st"

fun run :: "event list \<Rightarrow> server \<Rightarrow> server" where
  "run [] st = st"
| "run (ev # evs) st = run evs (step ev st)"

section \<open>The invariant of the session store\<close>

text \<open>
  The root is an absolute path, and every stored directory is an absolute path that
  passes the path check.
\<close>

definition storeConfined :: "server \<Rightarrow> bool" where
  "storeConfined st =
     (filepath_IsAbs (originalRoot st) \<and>
      (\<forall>id sess. sessions st id = Some sess \<longrightarrow>
         filepath_IsAbs (CurrentDir sess) \<and> isPathSafe st (CurrentDir sess)))"

section \<open>The path check as the specification words it\<close>

text \<open>
  Following the specification's words: a path is within the root when its cleaned
  absolute form, compared without regard to case, is the root or has the root as a proper
  ancestor, that is, its elements start with all the elements of the root and go on.
\<close>

definition properAncestor :: "string \<Rightarrow> string \<Rightarrow> bool" where
  "properAncestor a p =
     (filepath_IsAbs a = filepath_IsAbs p \<and>
      length (pathElems a) < length (pathElems p) \<and>
      take (length (pathElems a)) (pathElems p) = pathElems a)"

definition isWithinRoot :: "string \<Rightarrow> string \<Rightarrow> string \<Rightarrow> bool" where
  "isWithinRoot wd candidatePath root =
     (let c = strings_ToLower (filepath_Abs wd candidatePath);
          r = strings_ToLower (filepath_Abs wd root)
      in c = r \<or> properAncestor r c)"

section \<open>A running example\<close>

text \<open>
  A server started in \<open>/home/ob\<close> with root \<open>/srv/data\<close>; beside the root there is a
  directory whose name starts with the root's name.
\<close>

definition exampleFiles :: "(string \<times> node) list" where
  "exampleFiles =
     [(''/'', Directory), (''/etc'', Directory), (''/srv'', Directory),
      (''/srv/data'', Directory), (''/srv/data/foo'', Directory),
      (''/srv/data/foo/a.txt'', RegularFile ''hi''),
      (''/srv/data2'', Directory), (''/srv/data2/key'', RegularFile ''secret'')]"

definition exampleServer :: server where
  "exampleServer = startServer ''/home/ob'' ''/srv/data'' exampleFiles"

definition exampleEnv :: "string \<Rightarrow> int \<Rightarrow> Env" where
  "exampleEnv newID now = \<lparr>freshID = newID, clock = now, clock2 = now + 1, lsResult = Inr []\<rparr>"

definition request :: "string option \<Rightarrow> string \<Rightarrow> string \<Rightarrow> Request" where
  "request c d f = \<lparr>cookie = c, q_dir = d, q_file = f, form = NoFilePart\<rparr>"

text \<open>The example after a first request without cookie, which creates session \<open>c0de\<close>.\<close>

definition sessionServer :: server where
  "sessionServer = step (Req Files (request None [] []) (exampleEnv ''c0de'' 1000)) exampleServer"

text \<open>
  The session of the example after a directory change to \<open>../data2\<close>, and after one
  to \<open>foo\<close>.
\<close>

definition siblingServer :: server where
  "siblingServer =
     run [Req Files (request None [] []) (exampleEnv ''c0de'' 1000),
          Req Cd (request (Some ''c0de'') ''../data2'' []) (exampleEnv ''beef'' 2000)]
       exampleServer"

definition fooServer :: server where
  "fooServer =
     run [Req Files (request None [] []) (exampleEnv ''c0de'' 1000),
          Req Cd (request (Some ''c0de'') ''foo'' []) (exampleEnv ''beef'' 2000)]
       exampleServer"

text \<open>
  A directory change to \<open>.././\<close> whose wrapper has bound session \<open>c0de\<close>, then a
  whole \<open>/quit\<close> request with the same cookie, then the second read of the wrapper and
  the handler.
\<close>

definition raceServer :: server where
  "raceServer =
     snd (callHandler changeDirectory (request (Some ''c0de'') ''.././'' [])
            (exampleEnv ''beef'' 3000) ''c0de'' None
            (step (Req Quit (request (Some ''c0de'') [] []) (exampleEnv ''f00d'' 3000))
               (snd (snd (bindSession (request (Some ''c0de'') ''.././'' [])
                            (exampleEnv ''beef'' 3000) fooServer)))))"

lemmas example_defs =
  exampleServer_def exampleFiles_def exampleEnv_def request_def sessionServer_def

section \<open>Facts about cleaned paths\<close>

text \<open>The path functions on the examples of Go's documentation and tests.\<close>

lemma filepath_Clean_examples:
  "filepath_Clean [] = ''.''"
  "filepath_Clean ''abc//def//ghi'' = ''abc/def/ghi''"
  "filepath_Clean ''abc/./def'' = ''abc/def''"
  "filepath_Clean ''abc/def/../ghi/../jkl'' = ''abc/jkl''"
  "filepath_Clean ''abc/def/../../..'' = ''..''"
  "filepath_Clean ''/abc/def/../../..'' = ''/''"
  "filepath_Clean ''/../abc'' = ''/abc''"
  "filepath_Clean ''../../abc/'' = ''../../abc''"
  "filepath_Clean ''abc/./../def'' = ''def''"
  by code_simp+

lemma filepath_Dir_Join_examples:
  "filepath_Dir ''/srv/data'' = ''/srv''"
  "filepath_Dir ''/srv'' = ''/''"
  "filepath_Dir ''/'' = ''/''"
  "filepath_Dir [] = ''.''"
  "filepath_Dir ''abc'' = ''.''"
  "filepath_Join ''/srv/data'' ''../x'' = ''/srv/x''"
  "filepath_Join [] ''../x'' = ''../x''"
  "filepath_Join ''/srv/data'' [] = ''/srv/data''"
  "filepath_Join [] [] = []"
  "strings_Trim [CHR ''/'', CHR '' '', CHR 0x22, CHR ''a'', CHR '' '', CHR ''b'', CHR 0x22, CHR 0x5C]
     trimCutset = ''a b''"
  by code_simp+

lemma splitSep_nonempty [simp]: "splitSep s \<noteq> []"
  by (induction s) auto

lemma splitSep_sepfree: "e \<in> set (splitSep s) \<Longrightarrow> sep \<notin> set e"
proof (induction s arbitrary: e)
  case Nil
  then show ?case by simp
next
  case (Cons c cs)
  obtain x xs where sp: "splitSep cs = x # xs"
    by (cases "splitSep cs") auto
  with Cons show ?case
    by (auto split: if_splits)
qed

lemma splitSep_append_sep:
  "sep \<notin> set e \<Longrightarrow> splitSep (e @ sep # rest) = e # splitSep rest"
  by (induction e) auto

lemma splitSep_sepfree_single: "sep \<notin> set e \<Longrightarrow> splitSep e = [e]"
  by (induction e) auto

lemma splitSep_joinSep:
  "out \<noteq> [] \<Longrightarrow> \<forall>e \<in> set out. sep \<notin> set e \<Longrightarrow> splitSep (joinSep out) = out"
proof (induction out rule: joinSep.induct)
  case 1
  then show ?case by simp
next
  case (2 e)
  then show ?case by (simp add: splitSep_sepfree_single)
next
  case (3 e v va)
  then show ?case by (simp add: splitSep_append_sep)
qed

lemma pathElems_props:
  "e \<in> set (pathElems p) \<Longrightarrow> e \<noteq> [] \<and> e \<noteq> dot \<and> sep \<notin> set e"
  by (auto simp: pathElems_def dest: splitSep_sepfree)

lemma cleanElems_subset: "set (cleanElems rooted out es) \<subseteq> set out \<union> set es"
  by (induction rooted out es rule: cleanElems.induct) (auto split: list.splits if_splits)

lemma cleanElems_rooted_nodotdot:
  "dotdot \<notin> set out \<Longrightarrow> dotdot \<notin> set (cleanElems True out es)"
proof (induction es arbitrary: out)
  case Nil
  then show ?case by simp
next
  case (Cons e es)
  show ?case
  proof (cases "e = dotdot")
    case True
    show ?thesis
    proof (cases out)
      case Nil
      with True Cons.IH[of "[]"] show ?thesis by simp
    next
      case (Cons t ts)
      with Cons.prems have "t \<noteq> dotdot" "dotdot \<notin> set ts" by auto
      with True Cons Cons.IH[of ts] show ?thesis by simp
    qed
  next
    case False
    with Cons.prems have "dotdot \<notin> set (e # out)" by auto
    from Cons.IH[OF this] False show ?thesis by simp
  qed
qed

lemma cleanElems_plain: "dotdot \<notin> set es \<Longrightarrow> cleanElems rooted out es = rev out @ es"
  by (induction es arbitrary: out) auto

lemma pathElems_rooted: "pathElems (sep # s) = pathElems s"
  by (simp add: pathElems_def)

lemma filepath_IsAbs_Cons [simp]: "filepath_IsAbs (c # s) = (c = sep)"
  by (auto simp: filepath_IsAbs_def strings_HasPrefix_def)

lemma filepath_IsAbs_Nil [simp]: "\<not> filepath_IsAbs []"
  by (simp add: filepath_IsAbs_def strings_HasPrefix_def)

lemma filepath_IsAbs_iff: "filepath_IsAbs p \<longleftrightarrow> (\<exists>s. p = sep # s)"
  by (cases p) auto

lemma Clean_rooted:
  "filepath_Clean (sep # s) = sep # joinSep (cleanElems True [] (pathElems s))"
  by (simp add: filepath_Clean_def Let_def pathElems_rooted)

lemma Clean_IsAbs: "filepath_IsAbs p \<Longrightarrow> filepath_IsAbs (filepath_Clean p)"
  by (auto simp: filepath_IsAbs_iff Clean_rooted)

lemma pathElems_joinSep:
  assumes "\<forall>e \<in> set out. e \<noteq> [] \<and> e \<noteq> dot \<and> sep \<notin> set e"
  shows "pathElems (joinSep out) = out"
proof (cases "out = []")
  case True
  then show ?thesis by (simp add: pathElems_def)
next
  case False
  with assms have "splitSep (joinSep out) = out"
    by (simp add: splitSep_joinSep)
  with assms show ?thesis
    by (simp add: pathElems_def filter_id_conv)
qed

lemma Clean_idem_rooted: "filepath_Clean (filepath_Clean (sep # s)) = filepath_Clean (sep # s)"
proof -
  let ?out = "cleanElems True [] (pathElems s)"
  have props: "\<forall>e \<in> set ?out. e \<noteq> [] \<and> e \<noteq> dot \<and> sep \<notin> set e"
    using cleanElems_subset[of True "[]" "pathElems s"] pathElems_props[of _ s] by auto
  have nodd: "dotdot \<notin> set ?out"
    by (rule cleanElems_rooted_nodotdot) simp
  have "pathElems (joinSep ?out) = ?out"
    using props by (rule pathElems_joinSep)
  moreover have "cleanElems True [] ?out = ?out"
    using nodd by (simp add: cleanElems_plain)
  ultimately show ?thesis
    by (simp add: Clean_rooted)
qed

lemma Clean_idem: "filepath_IsAbs p \<Longrightarrow> filepath_Clean (filepath_Clean p) = filepath_Clean p"
  by (auto simp: filepath_IsAbs_iff Clean_idem_rooted)

text \<open>Length: every element counts with one separator.\<close>

lemma length_joinSep: "length (joinSep out) = sum_list (map (\<lambda>e. Suc (length e)) out) - 1"
  by (induction out rule: joinSep.induct) auto

lemma weight_splitSep: "sum_list (map (\<lambda>e. Suc (length e)) (splitSep s)) = Suc (length s)"
proof (induction s)
  case Nil
  then show ?case by simp
next
  case (Cons c cs)
  obtain x xs where sp: "splitSep cs = x # xs"
    by (cases "splitSep cs") auto
  with Cons show ?case by auto
qed

lemma weight_filter:
  "sum_list (map (\<lambda>e. Suc (length e)) (filter P xs)) \<le> sum_list (map (\<lambda>e. Suc (length e)) xs)"
  by (induction xs) auto

lemma weight_cleanElems:
  "sum_list (map (\<lambda>e. Suc (length e)) (cleanElems rooted out es))
     \<le> sum_list (map (\<lambda>e. Suc (length e)) out) + sum_list (map (\<lambda>e. Suc (length e)) es)"
proof (induction rooted out es rule: cleanElems.induct)
  case (1 rooted out)
  then show ?case by (simp add: rev_map[symmetric])
next
  case (2 rooted out e es)
  then show ?case
    by (cases out) (auto split: if_splits)
qed

lemma length_Clean_rooted: "length (filepath_Clean (sep # s)) \<le> length (sep # s)"
proof -
  have "sum_list (map (\<lambda>e. Suc (length e)) (cleanElems True [] (pathElems s)))
          \<le> sum_list (map (\<lambda>e. Suc (length e)) (pathElems s))"
    using weight_cleanElems[of True "[]" "pathElems s"] by simp
  also have "\<dots> \<le> Suc (length s)"
    unfolding pathElems_def using weight_filter[of _ "splitSep s"] weight_splitSep[of s]
    by metis
  finally show ?thesis
    by (simp add: Clean_rooted length_joinSep)
qed

lemma length_Clean: "filepath_IsAbs p \<Longrightarrow> length (filepath_Clean p) \<le> length p"
  using length_Clean_rooted by (auto simp: filepath_IsAbs_iff)

lemma uptoLastSep_split: "uptoLastSep p @ rev (takeWhile (\<lambda>c. c \<noteq> sep) (rev p)) = p"
proof -
  have "rev (takeWhile (\<lambda>c. c \<noteq> sep) (rev p) @ dropWhile (\<lambda>c. c \<noteq> sep) (rev p)) = p"
    by simp
  then show ?thesis
    unfolding uptoLastSep_def rev_append .
qed

lemma length_uptoLastSep: "length (uptoLastSep p) \<le> length p"
  by (simp add: uptoLastSep_def length_dropWhile_le[where xs = "rev p", simplified])

lemma uptoLastSep_full: "length (uptoLastSep p) = length p \<Longrightarrow> uptoLastSep p = p"
proof -
  assume a: "length (uptoLastSep p) = length p"
  have "length (uptoLastSep p) + length (rev (takeWhile (\<lambda>c. c \<noteq> sep) (rev p))) = length p"
    using uptoLastSep_split[of p] by (metis length_append)
  with a have "rev (takeWhile (\<lambda>c. c \<noteq> sep) (rev p)) = []" by simp
  with uptoLastSep_split[of p] show ?thesis by simp
qed

lemma uptoLastSep_last: "uptoLastSep p \<noteq> [] \<Longrightarrow> last (uptoLastSep p) = sep"
proof -
  assume "uptoLastSep p \<noteq> []"
  then have ne: "dropWhile (\<lambda>c. c \<noteq> sep) (rev p) \<noteq> []"
    by (simp add: uptoLastSep_def)
  then have "hd (dropWhile (\<lambda>c. c \<noteq> sep) (rev p)) = sep"
    using hd_dropWhile[of "\<lambda>c. c \<noteq> sep" "rev p"] by simp
  with ne show ?thesis
    by (simp add: uptoLastSep_def last_rev)
qed

lemma uptoLastSep_IsAbs: "filepath_IsAbs p \<Longrightarrow> filepath_IsAbs (uptoLastSep p)"
proof -
  assume "filepath_IsAbs p"
  then obtain s where p: "p = sep # s" by (auto simp: filepath_IsAbs_iff)
  have "dropWhile (\<lambda>c. c \<noteq> sep) (rev s @ [sep]) \<noteq> []"
    by (simp add: dropWhile_eq_Nil_conv)
  then have ne: "uptoLastSep p \<noteq> []"
    by (simp add: uptoLastSep_def p)
  from uptoLastSep_split[of p] p ne show ?thesis
    by (cases "uptoLastSep p") auto
qed

lemma Dir_IsAbs: "filepath_IsAbs p \<Longrightarrow> filepath_IsAbs (filepath_Dir p)"
  by (simp add: filepath_Dir_def Clean_IsAbs uptoLastSep_IsAbs)

lemma Join_IsAbs: "filepath_IsAbs a \<Longrightarrow> filepath_IsAbs (filepath_Join a b)"
  by (auto simp: filepath_Join_def filepath_IsAbs_iff Clean_rooted)

lemma Abs_is_Clean:
  "filepath_IsAbs wd \<Longrightarrow> \<exists>q. filepath_IsAbs q \<and> filepath_Abs wd p = filepath_Clean q"
proof -
  assume "filepath_IsAbs wd"
  then obtain s where wd: "wd = sep # s" by (auto simp: filepath_IsAbs_iff)
  show ?thesis
  proof (cases "filepath_IsAbs p")
    case True
    then show ?thesis by (auto simp: filepath_Abs_def)
  next
    case False
    then have "filepath_Abs wd p = filepath_Clean (sep # s @ sep # p)"
      by (simp add: filepath_Abs_def filepath_Join_def wd)
    then show ?thesis by (metis filepath_IsAbs_Cons)
  qed
qed

lemma Abs_IsAbs: "filepath_IsAbs wd \<Longrightarrow> filepath_IsAbs (filepath_Abs wd p)"
  using Abs_is_Clean[of wd p] by (auto simp: Clean_IsAbs)

lemma Abs_clean: "filepath_IsAbs wd \<Longrightarrow> filepath_Clean (filepath_Abs wd p) = filepath_Abs wd p"
  using Abs_is_Clean[of wd p] by (auto simp: Clean_idem)

lemma Abs_of_abs: "filepath_IsAbs p \<Longrightarrow> filepath_Abs wd p = filepath_Clean p"
  by (simp add: filepath_Abs_def)

lemma length_ToLower [simp]: "length (strings_ToLower s) = length s"
  by (simp add: strings_ToLower_def)

lemma HasPrefix_length: "strings_HasPrefix s p \<Longrightarrow> length p \<le> length s"
  by (simp add: strings_HasPrefix_def)

lemma HasPrefix_refl [simp]: "strings_HasPrefix s s"
  by (simp add: strings_HasPrefix_def)

lemma joinSep_last:
  "out \<noteq> [] \<Longrightarrow> \<forall>e \<in> set out. e \<noteq> [] \<Longrightarrow>
   joinSep out \<noteq> [] \<and> last (joinSep out) = last (last out)"
  by (induction out rule: joinSep.induct) auto

text \<open>The parent of a cleaned absolute path is as long as the path only for \<open>/\<close>.\<close>

lemma Dir_shorter:
  assumes "filepath_IsAbs root" and "filepath_Clean root = root"
      and "length root \<le> length (filepath_Dir root)"
  shows "root = [sep]"
proof -
  have "length (filepath_Dir root) \<le> length (uptoLastSep root)"
    unfolding filepath_Dir_def using assms(1) by (intro length_Clean uptoLastSep_IsAbs)
  with assms(3) length_uptoLastSep[of root] have "length (uptoLastSep root) = length root"
    by simp
  then have full: "uptoLastSep root = root" by (rule uptoLastSep_full)
  from assms(1) obtain s where root: "root = sep # s" by (auto simp: filepath_IsAbs_iff)
  let ?out = "cleanElems True [] (pathElems s)"
  have eq: "sep # s = sep # joinSep ?out"
    using assms(2) root by (simp add: Clean_rooted)
  have props: "\<forall>e \<in> set ?out. e \<noteq> [] \<and> sep \<notin> set e"
    using cleanElems_subset[of True "[]" "pathElems s"] pathElems_props[of _ s] by auto
  have "?out = []"
  proof (rule ccontr)
    assume ne: "?out \<noteq> []"
    with props have j: "joinSep ?out \<noteq> []" "last (joinSep ?out) = last (last ?out)"
      using joinSep_last[of ?out] by auto
    from ne props have "last ?out \<noteq> []" "sep \<notin> set (last ?out)"
      using last_in_set[OF ne] by auto
    then have "last (last ?out) \<noteq> sep"
      by (metis last_in_set)
    moreover have "last root = sep"
      using uptoLastSep_last[of root] full root by simp
    ultimately show False
      using j eq root by simp
  qed
  with eq root show ?thesis by simp
qed

lemma Dir_root: "filepath_Dir [sep] = [sep]"
  by code_simp

section \<open>How the operating system calls change the state\<close>

lemma logCall_fields [simp]:
  "originalRoot (logCall c st) = originalRoot st"
  "sessions (logCall c st) = sessions st"
  "cwd (logCall c st) = cwd st"
  "files (logCall c st) = files st"
  "oscalls (logCall c st) = oscalls st @ [c]"
  by (simp_all add: logCall_def)

lemma isPathSafe_logCall [simp]: "isPathSafe (logCall c st) p = isPathSafe st p"
  by (simp add: isPathSafe_def)

lemma isPathSafe_oscalls [simp]: "isPathSafe (st\<lparr>oscalls := x\<rparr>) p = isPathSafe st p"
  by (simp add: isPathSafe_def)

text \<open>
  The errors of paths that do not resolve, in the example: a missing entry of a
  directory, a path through a regular file, the empty path.
\<close>

lemma os_error_examples:
  "fst (os_Stat ''/srv/data/nofile'' exampleServer) = Inl ENOENT"
  "fst (os_Stat ''/srv/data2/key/x/y'' exampleServer) = Inl ENOTDIR"
  "fst (os_Stat [] exampleServer) = Inl ENOENT"
  "fst (os_Remove [] exampleServer) = Some ENOENT"
  "fst (os_Mkdir ''/srv/data/no/sub'' exampleServer) = Some ENOENT"
  unfolding example_defs by code_simp+

lemma os_Stat_state: "os_Stat p st = (res, st') \<Longrightarrow> st' = logCall (Stat p) st"
  by (auto simp: os_Stat_def Let_def split: option.splits sum.splits)

lemma os_Chdir_ok:
  "os_Chdir p st = (None, st') \<Longrightarrow>
   st' = (logCall (Chdir p) st)\<lparr>cwd := filepath_Abs (cwd st) p\<rparr>"
  by (auto simp: os_Chdir_def resolvePath_def Let_def
           split: option.splits node.splits sum.splits if_splits)

lemma os_Chdir_err: "os_Chdir p st = (Some err, st') \<Longrightarrow> st' = logCall (Chdir p) st"
  by (auto simp: os_Chdir_def Let_def split: option.splits node.splits sum.splits)

lemma os_Mkdir_exists:
  "lookupNode st (filepath_Abs (cwd st) p) \<noteq> None \<Longrightarrow>
   \<exists>err. os_Mkdir p st = (Some err, logCall (Mkdir p) st)"
  by (auto simp: os_Mkdir_def resolvePath_def Let_def split: option.splits node.splits)

lemma os_Remove_err: "os_Remove p st = (Some err, st') \<Longrightarrow> st' = logCall (Remove p) st"
  by (auto simp: os_Remove_def Let_def split: option.splits node.splits sum.splits if_splits)

section \<open>The directory change\<close>

lemma changeDirectory_success:
  assumes "changeDirectory r e currentDir st = ((200, msg), st')"
  shows "\<exists>v newDir. cookie r = Some v \<and>
             newDir = cdTarget st currentDir (strings_Trim (q_dir r) trimCutset) \<and>
             isPathSafe st newDir \<and>
             msg = ''Directory changed to '' @ newDir \<and>
             st' = st\<lparr>sessions := (sessions st)(v \<mapsto> \<lparr>CurrentDir = newDir, LastAccess = clock2 e\<rparr>),
                      cwd := filepath_Abs (cwd st) newDir,
                      oscalls := oscalls st @ [Stat newDir, Chdir newDir]\<rparr>"
  using assms
  unfolding changeDirectory_def Let_def httpError_def
  by (auto split: if_splits prod.splits sum.splits option.splits
           dest!: os_Stat_state os_Chdir_ok os_Chdir_err simp: logCall_def)

lemma changeDirectory_failure:
  assumes "changeDirectory r e currentDir st = ((code, msg), st')" "code \<noteq> 200"
  shows "sessions st' = sessions st \<and> files st' = files st \<and> originalRoot st' = originalRoot st"
  using assms
  unfolding changeDirectory_def Let_def httpError_def
  by (auto split: if_splits prod.splits sum.splits option.splits
           dest!: os_Stat_state os_Chdir_ok os_Chdir_err)

text \<open>
  Claim C4, as the code has it. A directory change that succeeds stores the new directory
  under the cookie of the request, and it also makes the new directory the working
  directory of the whole process (\<open>os.Chdir\<close>). It changes no file and not the root; the
  calls it makes are one \<open>Stat\<close> and one \<open>Chdir\<close> of the new directory.
\<close>

theorem cd_success_effects:
  assumes "fst (fst (changeDirectory r e currentDir st)) = 200"
  shows "\<exists>v newDir.
           cookie r = Some v \<and>
           newDir = cdTarget st currentDir (strings_Trim (q_dir r) trimCutset) \<and>
           sessions (snd (changeDirectory r e currentDir st)) =
             (sessions st)(v \<mapsto> \<lparr>CurrentDir = newDir, LastAccess = clock2 e\<rparr>) \<and>
           cwd (snd (changeDirectory r e currentDir st)) = filepath_Abs (cwd st) newDir \<and>
           files (snd (changeDirectory r e currentDir st)) = files st \<and>
           originalRoot (snd (changeDirectory r e currentDir st)) = originalRoot st \<and>
           oscalls (snd (changeDirectory r e currentDir st)) =
             oscalls st @ [Stat newDir, Chdir newDir]"
proof -
  obtain code msg st' where eq: "changeDirectory r e currentDir st = ((code, msg), st')"
    by (metis surj_pair)
  with assms have "code = 200" by simp
  with eq have "changeDirectory r e currentDir st = ((200, msg), st')" by simp
  from changeDirectory_success[OF this] eq show ?thesis by auto
qed

theorem cd_success_effects_witness:
  "fst (fst (changeDirectory (request (Some ''c0de'') ''foo'' []) (exampleEnv ''beef'' 2000)
              ''/srv/data'' sessionServer)) = 200 \<and>
   cwd sessionServer = ''/home/ob'' \<and>
   cwd (snd (changeDirectory (request (Some ''c0de'') ''foo'' []) (exampleEnv ''beef'' 2000)
              ''/srv/data'' sessionServer)) = ''/srv/data/foo''"
proof -
  have h: "fst (fst (changeDirectory (request (Some ''c0de'') ''foo'' [])
              (exampleEnv ''beef'' 2000) ''/srv/data'' sessionServer)) = 200"
    unfolding example_defs by code_simp
  have t: "cdTarget sessionServer ''/srv/data''
             (strings_Trim (q_dir (request (Some ''c0de'') ''foo'' [])) trimCutset) = ''/srv/data/foo''"
    unfolding example_defs by code_simp
  have c: "cwd sessionServer = ''/home/ob''"
    unfolding example_defs by code_simp
  have a: "filepath_Abs ''/home/ob'' ''/srv/data/foo'' = ''/srv/data/foo''"
    by code_simp
  from cd_success_effects[OF h] t c a h show ?thesis by auto
qed

text \<open>
  The session store is not all that a successful change touches: here the process was
  started in \<open>/home/ob\<close> and works in \<open>/srv/data/foo\<close> afterwards.
\<close>

theorem cd_changes_cwd_counterexample:
  "status (fst (withSession changeDirectory (request (Some ''c0de'') ''foo'' [])
                  (exampleEnv ''beef'' 2000) sessionServer)) = 200 \<and>
   cwd sessionServer = ''/home/ob'' \<and>
   cwd (snd (withSession changeDirectory (request (Some ''c0de'') ''foo'' [])
                  (exampleEnv ''beef'' 2000) sessionServer)) = ''/srv/data/foo''"
  unfolding example_defs by code_simp

text \<open>
  Claim C6, as the code has it. The commit of a directory change is an unconditional
  assignment to the map: after it the identifier of the request's cookie holds the new
  directory and the new access time, whether or not it was in the store before, and
  every other entry is as it was.
\<close>

theorem cd_commit_upserts:
  assumes "fst (fst (changeDirectory r e currentDir st)) = 200"
  shows "\<exists>v. cookie r = Some v \<and>
           (\<forall>id. sessions (snd (changeDirectory r e currentDir st)) id =
              (if id = v
               then Some \<lparr>CurrentDir = cdTarget st currentDir (strings_Trim (q_dir r) trimCutset),
                          LastAccess = clock2 e\<rparr>
               else sessions st id))"
proof -
  obtain code msg st' where eq: "changeDirectory r e currentDir st = ((code, msg), st')"
    by (metis surj_pair)
  with assms have "changeDirectory r e currentDir st = ((200, msg), st')" by simp
  from changeDirectory_success[OF this] eq show ?thesis by auto
qed

theorem cd_commit_upserts_witness:
  "fst (fst (changeDirectory (request (Some ''dead'') ''foo'' []) (exampleEnv ''beef'' 2000)
              ''/srv/data'' sessionServer)) = 200 \<and>
   sessions sessionServer ''dead'' = None \<and>
   sessions (snd (changeDirectory (request (Some ''dead'') ''foo'' []) (exampleEnv ''beef'' 2000)
              ''/srv/data'' sessionServer)) ''dead'' =
     Some \<lparr>CurrentDir = ''/srv/data/foo'', LastAccess = 2001\<rparr> \<and>
   sessions (snd (changeDirectory (request (Some ''dead'') ''foo'' []) (exampleEnv ''beef'' 2000)
              ''/srv/data'' sessionServer)) ''c0de'' = sessions sessionServer ''c0de''"
proof -
  have h: "fst (fst (changeDirectory (request (Some ''dead'') ''foo'' [])
              (exampleEnv ''beef'' 2000) ''/srv/data'' sessionServer)) = 200"
    unfolding example_defs by code_simp
  have t: "cdTarget sessionServer ''/srv/data''
             (strings_Trim (q_dir (request (Some ''dead'') ''foo'' [])) trimCutset) = ''/srv/data/foo''"
    unfolding example_defs by code_simp
  have n: "sessions sessionServer ''dead'' = None"
    unfolding example_defs by code_simp
  have c: "cookie (request (Some ''dead'') ''foo'' []) = Some ''dead''"
       "clock2 (exampleEnv ''beef'' 2000) = 2001"
    by (simp_all add: request_def exampleEnv_def)
  from cd_commit_upserts[OF h] t n c h show ?thesis by auto
qed

text \<open>
  A request with a cookie the store does not know: the commit inserts an entry for it.
\<close>

theorem update_inserts_counterexample:
  "sessions sessionServer ''dead'' = None \<and>
   sessions (snd (withSession changeDirectory (request (Some ''dead'') ''foo'' [])
                    (exampleEnv ''beef'' 2000) sessionServer)) ''dead'' =
     Some \<lparr>CurrentDir = ''/srv/data/foo'', LastAccess = 2001\<rparr>"
  unfolding example_defs by code_simp

section \<open>Create and delete\<close>

text \<open>
  Claim C8, as the code has it. Creating a directory whose name passes the path check and
  already exists fails with status 500 and the message of every other failure of
  \<open>os.Mkdir\<close>; nothing is created.
\<close>

theorem mkdir_existing_is_500:
  assumes "strings_Trim (q_dir r) trimCutset \<noteq> []"
      and "isPathSafe st (filepath_Clean (filepath_Join currentDir (strings_Trim (q_dir r) trimCutset)))"
      and "lookupNode st (filepath_Abs (cwd st)
             (filepath_Clean (filepath_Join currentDir (strings_Trim (q_dir r) trimCutset)))) \<noteq> None"
  shows "createDirectory r e currentDir st =
           (httpError ''Error creating directory'' 500,
            logCall (Mkdir (filepath_Clean (filepath_Join currentDir
                              (strings_Trim (q_dir r) trimCutset)))) st)"
  using os_Mkdir_exists[OF assms(3)] assms(1,2)
  by (auto simp: createDirectory_def Let_def)

theorem mkdir_existing_is_500_witness:
  "createDirectory (request (Some ''c0de'') ''foo'' []) (exampleEnv ''beef'' 2000)
     ''/srv/data'' sessionServer =
   ((500, ''Error creating directory'' @ [newline]), logCall (Mkdir ''/srv/data/foo'') sessionServer)"
proof -
  have t: "strings_Trim (q_dir (request (Some ''c0de'') ''foo'' [])) trimCutset = ''foo''"
    unfolding example_defs by code_simp
  have p: "filepath_Clean (filepath_Join ''/srv/data'' ''foo'') = ''/srv/data/foo''"
    by code_simp
  have a: "isPathSafe sessionServer ''/srv/data/foo''"
    unfolding example_defs by code_simp
  have b: "lookupNode sessionServer (filepath_Abs (cwd sessionServer) ''/srv/data/foo'') \<noteq> None"
    unfolding example_defs by code_simp
  from mkdir_existing_is_500[of "request (Some ''c0de'') ''foo'' []" sessionServer "''/srv/data''"
         "exampleEnv ''beef'' 2000"] t p a b
  show ?thesis by (simp add: httpError_def)
qed

text \<open>The status for an existing target is 500, not 400.\<close>

theorem mkdir_existing_counterexample:
  "lookupNode sessionServer ''/srv/data/foo'' = Some Directory \<and>
   status (fst (withSession createDirectory (request (Some ''c0de'') ''foo'' [])
                  (exampleEnv ''beef'' 2000) sessionServer)) = 500"
  unfolding example_defs by code_simp

text \<open>
  Claim C9, as the code has it. Whatever error \<open>os.Remove\<close> returns for a path that
  passed the path check, the reply is the same: status 500, \<open>Error deleting file\<close>.
\<close>

theorem delete_failures_same_reply:
  assumes "isPathSafe st (filepath_Join currentDir (q_file r))"
      and "fst (os_Remove (filepath_Join currentDir (q_file r)) st) = Some err"
  shows "deleteFile r e currentDir st =
           (httpError ''Error deleting file'' 500,
            logCall (Remove (filepath_Join currentDir (q_file r))) st)"
proof -
  obtain st1 where "os_Remove (filepath_Join currentDir (q_file r)) st = (Some err, st1)"
    using assms(2) by (metis fst_conv surj_pair)
  with os_Remove_err[OF this] assms(1) show ?thesis
    by (simp add: deleteFile_def Let_def)
qed

theorem delete_failures_same_reply_witness:
  "fst (os_Remove ''/srv/data/foo'' sessionServer) = Some ENOTEMPTY \<and>
   deleteFile (request (Some ''c0de'') [] ''foo'') (exampleEnv ''beef'' 2000)
     ''/srv/data'' sessionServer =
   ((500, ''Error deleting file'' @ [newline]), logCall (Remove ''/srv/data/foo'') sessionServer)"
proof -
  have p: "filepath_Join ''/srv/data'' (q_file (request (Some ''c0de'') [] ''foo'')) = ''/srv/data/foo''"
    unfolding example_defs by code_simp
  have a: "isPathSafe sessionServer ''/srv/data/foo''"
    unfolding example_defs by code_simp
  have b: "fst (os_Remove ''/srv/data/foo'' sessionServer) = Some ENOTEMPTY"
    unfolding example_defs by code_simp
  from delete_failures_same_reply[of sessionServer "''/srv/data''"
         "request (Some ''c0de'') [] ''foo''" ENOTEMPTY "exampleEnv ''beef'' 2000"] p a b
  show ?thesis by (simp add: httpError_def)
qed

text \<open>
  A missing file and a directory that is not empty fail differently in the operating
  system and get the same reply.
\<close>

theorem delete_not_distinct_counterexample:
  "fst (os_Remove ''/srv/data/nofile'' sessionServer) = Some ENOENT \<and>
   fst (os_Remove ''/srv/data/foo'' sessionServer) = Some ENOTEMPTY \<and>
   fst (withSession deleteFile (request (Some ''c0de'') [] ''nofile'')
          (exampleEnv ''beef'' 2000) sessionServer) =
   fst (withSession deleteFile (request (Some ''c0de'') [] ''foo'')
          (exampleEnv ''beef'' 2000) sessionServer)"
  unfolding example_defs by code_simp

section \<open>Sessions\<close>

lemma bindSession_unknown:
  assumes "cookie r = None \<or> (\<exists>v. cookie r = Some v \<and> sessions st v = None)"
  shows "bindSession r e st =
           (freshID e, Some (freshID e),
            st\<lparr>sessions := (sessions st)
               (freshID e \<mapsto> \<lparr>CurrentDir = originalRoot st, LastAccess = clock e\<rparr>)\<rparr>)"
  using assms by (auto simp: bindSession_def newSession_def)

text \<open>
  Claim C7. A pass of the sweep at time \<open>now\<close> removes a session exactly when its last
  access is more than five minutes (in nanoseconds) before \<open>now\<close>, keeps every other
  session as it is and adds none. A request whose cookie is not in the store is not
  refused: the handler runs with the root as its directory, in a store that holds a new
  session at the root under the fresh identifier, and the reply sets that identifier as
  the new cookie.
\<close>

theorem sweep_and_recreate:
  "(\<forall>id sess. sessions st id = Some sess \<longrightarrow>
      sessions (cleanupSessions now st) id =
        (if now - LastAccess sess > 5 * 60 * 1000000000 then None else Some sess)) \<and>
   (\<forall>id. sessions st id = None \<longrightarrow> sessions (cleanupSessions now st) id = None) \<and>
   (cookie r = Some v \<and> sessions st v = None \<longrightarrow>
      withSession fn r e st =
        (case fn r e (originalRoot st)
                (st\<lparr>sessions := (sessions st)
                   (freshID e \<mapsto> \<lparr>CurrentDir = originalRoot st, LastAccess = clock e\<rparr>)\<rparr>) of
           ((code, msg), st') \<Rightarrow>
             (\<lparr>status = code, body = msg, setCookie = Some (freshID e)\<rparr>, st')))"
proof (intro conjI allI impI)
  fix id sess assume "sessions st id = Some sess"
  then show "sessions (cleanupSessions now st) id =
        (if now - LastAccess sess > 5 * 60 * 1000000000 then None else Some sess)"
    by (simp add: cleanupSessions_def fiveMinutes_def)
next
  fix id assume "sessions st id = None"
  then show "sessions (cleanupSessions now st) id = None"
    by (simp add: cleanupSessions_def)
next
  assume a: "cookie r = Some v \<and> sessions st v = None"
  then have "cookie r = None \<or> (\<exists>v. cookie r = Some v \<and> sessions st v = None)" by blast
  from bindSession_unknown[OF this, of e]
  show "withSession fn r e st =
        (case fn r e (originalRoot st)
                (st\<lparr>sessions := (sessions st)
                   (freshID e \<mapsto> \<lparr>CurrentDir = originalRoot st, LastAccess = clock e\<rparr>)\<rparr>) of
           ((code, msg), st') \<Rightarrow>
             (\<lparr>status = code, body = msg, setCookie = Some (freshID e)\<rparr>, st'))"
    by (simp add: withSession_def callHandler_def readSession_def)
qed

theorem sweep_and_recreate_witness:
  "sessions sessionServer ''c0de'' = Some \<lparr>CurrentDir = ''/srv/data'', LastAccess = 1000\<rparr> \<and>
   sessions (cleanupSessions 300000001000 sessionServer) ''c0de'' =
     Some \<lparr>CurrentDir = ''/srv/data'', LastAccess = 1000\<rparr> \<and>
   sessions (cleanupSessions 300000001001 sessionServer) ''c0de'' = None \<and>
   withSession handleQuit (request (Some ''c0de'') [] []) (exampleEnv ''beef'' 300000002000)
     (cleanupSessions 300000001001 sessionServer) =
   (\<lparr>status = 200, body = ''Connection closed'' @ [newline], setCookie = Some ''beef''\<rparr>,
    (cleanupSessions 300000001001 sessionServer)
      \<lparr>sessions := (sessions (cleanupSessions 300000001001 sessionServer))
         (''beef'' \<mapsto> \<lparr>CurrentDir = ''/srv/data'', LastAccess = 300000002000\<rparr>, ''c0de'' := None)\<rparr>)"
proof -
  have s: "sessions sessionServer ''c0de'' = Some \<lparr>CurrentDir = ''/srv/data'', LastAccess = 1000\<rparr>"
    unfolding example_defs by code_simp
  have r: "originalRoot (cleanupSessions 300000001001 sessionServer) = ''/srv/data''"
    unfolding example_defs by code_simp
  note t = sweep_and_recreate[of sessionServer _ "request (Some ''c0de'') [] []" "''c0de''"
             handleQuit "exampleEnv ''beef'' 300000002000"]
  have a: "sessions (cleanupSessions 300000001000 sessionServer) ''c0de'' =
             Some \<lparr>CurrentDir = ''/srv/data'', LastAccess = 1000\<rparr>"
    using t[of 300000001000] s by simp
  have b: "sessions (cleanupSessions 300000001001 sessionServer) ''c0de'' = None"
    using t[of 300000001001] s by simp
  have c: "cookie (request (Some ''c0de'') [] []) = Some ''c0de''"
    by (simp add: request_def)
  note u = sweep_and_recreate[of "cleanupSessions 300000001001 sessionServer" 0
             "request (Some ''c0de'') [] []" "''c0de''" handleQuit "exampleEnv ''beef'' 300000002000"]
  from u b c r s a show ?thesis
    by (simp add: handleQuit_def httpOkLn_def exampleEnv_def request_def)
qed

lemma bindSession_present:
  assumes "bindSession r e st = (sid, sc, st1)"
  shows "\<exists>sess. sessions st1 sid = Some sess \<and> LastAccess sess = clock e"
  using assms by (auto simp: bindSession_def newSession_def split: option.splits)

text \<open>
  Claim C10. The wrapper reads the session again in a critical section of its own. Right
  after the first one the session is in the store; a \<open>/quit\<close> with the same cookie, or
  a sweep more than five minutes later, that runs in between removes it; and whenever it
  is missing at the second read, the handler is called with the empty string as its
  directory and the wrapper goes on with what the handler returns.
\<close>

theorem handler_gets_empty_dir:
  assumes "bindSession r e st = (sid, sc, st1)"
  shows "sessions st1 sid \<noteq> None \<and>
         (cookie r' = Some sid \<longrightarrow> sessions (snd (handleQuit r' e' d st1)) sid = None) \<and>
         (now - clock e > fiveMinutes \<longrightarrow> sessions (cleanupSessions now st1) sid = None) \<and>
         (sessions st2 sid = None \<longrightarrow>
            callHandler fn r e sid sc st2 =
              (case fn r e [] st2 of
                 ((code, msg), st') \<Rightarrow> (\<lparr>status = code, body = msg, setCookie = sc\<rparr>, st')))"
  using bindSession_present[OF assms]
  by (auto simp: callHandler_def readSession_def zeroSession_def handleQuit_def
                 cleanupSessions_def)

theorem handler_gets_empty_dir_witness:
  "bindSession (request (Some ''c0de'') ''foo'' []) (exampleEnv ''beef'' 2000) sessionServer =
     (''c0de'', None,
      sessionServer\<lparr>sessions := (sessions sessionServer)
         (''c0de'' \<mapsto> \<lparr>CurrentDir = ''/srv/data'', LastAccess = 2000\<rparr>)\<rparr>) \<and>
   callHandler changeDirectory (request (Some ''c0de'') ''foo'' []) (exampleEnv ''beef'' 2000)
     ''c0de'' None
     (snd (handleQuit (request (Some ''c0de'') [] []) (exampleEnv ''f00d'' 2000) ''/srv/data''
        (sessionServer\<lparr>sessions := (sessions sessionServer)
           (''c0de'' \<mapsto> \<lparr>CurrentDir = ''/srv/data'', LastAccess = 2000\<rparr>)\<rparr>))) =
   (case changeDirectory (request (Some ''c0de'') ''foo'' []) (exampleEnv ''beef'' 2000) []
      (snd (handleQuit (request (Some ''c0de'') [] []) (exampleEnv ''f00d'' 2000) ''/srv/data''
        (sessionServer\<lparr>sessions := (sessions sessionServer)
           (''c0de'' \<mapsto> \<lparr>CurrentDir = ''/srv/data'', LastAccess = 2000\<rparr>)\<rparr>))) of
      ((code, msg), st') \<Rightarrow> (\<lparr>status = code, body = msg, setCookie = None\<rparr>, st'))"
proof -
  have s: "sessions sessionServer ''c0de'' = Some \<lparr>CurrentDir = ''/srv/data'', LastAccess = 1000\<rparr>"
    unfolding example_defs by code_simp
  have b: "bindSession (request (Some ''c0de'') ''foo'' []) (exampleEnv ''beef'' 2000) sessionServer =
     (''c0de'', None,
      sessionServer\<lparr>sessions := (sessions sessionServer)
         (''c0de'' \<mapsto> \<lparr>CurrentDir = ''/srv/data'', LastAccess = 2000\<rparr>)\<rparr>)"
    using s by (simp add: bindSession_def request_def exampleEnv_def)
  have c: "cookie (request (Some ''c0de'') [] []) = Some ''c0de''"
    by (simp add: request_def)
  from handler_gets_empty_dir[OF b, of "request (Some ''c0de'') [] []"
         "exampleEnv ''f00d'' 2000" "''/srv/data''" 0
         "snd (handleQuit (request (Some ''c0de'') [] []) (exampleEnv ''f00d'' 2000) ''/srv/data''
        (sessionServer\<lparr>sessions := (sessions sessionServer)
           (''c0de'' \<mapsto> \<lparr>CurrentDir = ''/srv/data'', LastAccess = 2000\<rparr>)\<rparr>))" changeDirectory] b c
  show ?thesis by simp
qed

section \<open>The path check\<close>

lemma uploadFile_unsafe:
  "form r = FilePart filename content \<Longrightarrow> \<not> isPathSafe st (filepath_Join currentDir filename) \<Longrightarrow>
   uploadFile r e currentDir st = (httpError ''Invalid path'' 400, st)"
  by (simp add: uploadFile_def)

lemma downloadFile_unsafe:
  "\<not> isPathSafe st (filepath_Join currentDir (q_file r)) \<Longrightarrow>
   downloadFile r e currentDir st = (httpError ''Invalid path'' 400, st)"
  by (simp add: downloadFile_def)

lemma deleteFile_unsafe:
  "\<not> isPathSafe st (filepath_Join currentDir (q_file r)) \<Longrightarrow>
   deleteFile r e currentDir st = (httpError ''Invalid path'' 400, st)"
  by (simp add: deleteFile_def)

lemma createDirectory_unsafe:
  "strings_Trim (q_dir r) trimCutset \<noteq> [] \<Longrightarrow>
   \<not> isPathSafe st (filepath_Clean (filepath_Join currentDir (strings_Trim (q_dir r) trimCutset))) \<Longrightarrow>
   createDirectory r e currentDir st = (httpError ''Invalid path'' 400, st)"
  by (simp add: createDirectory_def)

text \<open>
  Claim C1. With root \<open>/srv/data\<close> the check accepts \<open>/srv/data2\<close>, which is neither
  the root nor below it, and a download of \<open>../data2/key\<close> from the root returns the
  file beside the root.
\<close>

theorem isPathSafe_accepts_sibling:
  "originalRoot exampleServer = ''/srv/data'' \<and>
   isPathSafe exampleServer ''/srv/data2'' \<and>
   \<not> isWithinRoot (cwd exampleServer) ''/srv/data2'' (originalRoot exampleServer) \<and>
   fst (withSession downloadFile (request None [] ''../data2/key'') (exampleEnv ''c0de'' 1000)
          exampleServer) =
     \<lparr>status = 200, body = ''secret'', setCookie = Some ''c0de''\<rparr>"
  unfolding example_defs by code_simp

text \<open>
  Claim C3. Upload, download, delete and create-directory reject a path that fails the
  check without any call to the operating system (the four lemmas above). The directory
  change calls \<open>Stat\<close> on the candidate before the check: for \<open>/etc\<close>, outside the
  root, the call is made and the reply is \<open>Invalid path\<close>; for \<open>/var\<close>, outside
  the root and missing, the call is made and the reply is \<open>Directory not found\<close>.
\<close>

theorem changeDirectory_stats_before_check:
  "\<not> isPathSafe exampleServer ''/etc'' \<and>
   fst (withSession changeDirectory (request None ''../../etc'' []) (exampleEnv ''c0de'' 1000)
          exampleServer) =
     \<lparr>status = 400, body = ''Invalid path'' @ [newline], setCookie = Some ''c0de''\<rparr> \<and>
   oscalls (snd (withSession changeDirectory (request None ''../../etc'' [])
                   (exampleEnv ''c0de'' 1000) exampleServer)) = [Stat ''/etc''] \<and>
   \<not> isPathSafe exampleServer ''/var'' \<and>
   fst (withSession changeDirectory (request None ''../../var'' []) (exampleEnv ''c0de'' 1000)
          exampleServer) =
     \<lparr>status = 404, body = ''Directory not found'' @ [newline], setCookie = Some ''c0de''\<rparr> \<and>
   oscalls (snd (withSession changeDirectory (request None ''../../var'' [])
                   (exampleEnv ''c0de'' 1000) exampleServer)) = [Stat ''/var'']"
  unfolding example_defs by code_simp

section \<open>The store stays confined\<close>

lemma isPathSafe_abs:
  "filepath_IsAbs p \<Longrightarrow> filepath_IsAbs (originalRoot st) \<Longrightarrow>
   isPathSafe st p =
     strings_HasPrefix (strings_ToLower (filepath_Clean p))
       (strings_ToLower (filepath_Clean (originalRoot st)))"
  by (simp add: isPathSafe_def Abs_of_abs)

lemma isPathSafe_root: "isPathSafe st (originalRoot st)"
  by (simp add: isPathSafe_def)

lemma isPathSafe_same_root:
  "filepath_IsAbs p \<Longrightarrow> filepath_IsAbs (originalRoot st) \<Longrightarrow>
   originalRoot st' = originalRoot st \<Longrightarrow> isPathSafe st' p = isPathSafe st p"
  by (simp add: isPathSafe_def Abs_of_abs)

lemma storeConfined_step:
  assumes "storeConfined st" and "originalRoot st' = originalRoot st"
      and "\<And>tok sess. sessions st' tok = Some sess \<Longrightarrow>
             (\<exists>s0. sessions st tok = Some s0 \<and> CurrentDir s0 = CurrentDir sess) \<or>
             (filepath_IsAbs (CurrentDir sess) \<and> isPathSafe st (CurrentDir sess))"
  shows "storeConfined st'"
proof -
  have abs: "filepath_IsAbs (originalRoot st)"
    using assms(1) by (simp add: storeConfined_def)
  have entries: "filepath_IsAbs (CurrentDir sess) \<and> isPathSafe st' (CurrentDir sess)"
    if a: "sessions st' tok = Some sess" for tok sess
  proof -
    have old: "filepath_IsAbs (CurrentDir sess) \<and> isPathSafe st (CurrentDir sess)"
      using assms(3)[OF a] assms(1) unfolding storeConfined_def by metis
    then have "isPathSafe st' (CurrentDir sess) = isPathSafe st (CurrentDir sess)"
      using abs assms(2) by (simp add: isPathSafe_same_root)
    with old show ?thesis by simp
  qed
  show ?thesis
    unfolding storeConfined_def using abs assms(2) entries by simp
qed

lemma storeConfined_sub:
  assumes "storeConfined st" and "originalRoot st' = originalRoot st"
      and "\<And>tok sess. sessions st' tok = Some sess \<Longrightarrow> sessions st tok = Some sess"
  shows "storeConfined st'"
proof -
  have "(\<exists>s0. sessions st tok = Some s0 \<and> CurrentDir s0 = CurrentDir sess) \<or>
        (filepath_IsAbs (CurrentDir sess) \<and> isPathSafe st (CurrentDir sess))"
    if "sessions st' tok = Some sess" for tok sess
    using assms(3)[OF that] by simp
  with assms(1,2) show ?thesis by (rule storeConfined_step)
qed

lemma startServer_confined: "filepath_IsAbs wd \<Longrightarrow> storeConfined (startServer wd rootFolder fs)"
  by (simp add: storeConfined_def startServer_def Abs_IsAbs)

lemma bindSession_confined:
  assumes "storeConfined st" and "bindSession r e st = (sid, sc, st1)"
  shows "storeConfined st1 \<and> filepath_IsAbs (CurrentDir (readSession sid st1))"
proof -
  have root: "originalRoot st1 = originalRoot st"
    using assms(2) by (auto simp: bindSession_def split: option.splits)
  have entries: "\<And>tok sess. sessions st1 tok = Some sess \<Longrightarrow>
             (\<exists>s0. sessions st tok = Some s0 \<and> CurrentDir s0 = CurrentDir sess) \<or>
             (filepath_IsAbs (CurrentDir sess) \<and> isPathSafe st (CurrentDir sess))"
    using assms
    by (auto simp: bindSession_def newSession_def storeConfined_def isPathSafe_root
             split: option.splits if_splits)
  have c: "storeConfined st1"
    using assms(1) root entries by (rule storeConfined_step)
  obtain sess where "sessions st1 sid = Some sess"
    using bindSession_present[OF assms(2)] by auto
  with c show ?thesis
    by (simp add: readSession_def storeConfined_def)
qed

lemma os_Create_frame:
  "sessions (snd (os_Create p c st)) = sessions st \<and>
   originalRoot (snd (os_Create p c st)) = originalRoot st"
  by (simp add: os_Create_def Let_def unlinkNode_def split: option.splits node.splits sum.splits)

lemma os_Open_frame:
  "sessions (snd (os_Open p st)) = sessions st \<and>
   originalRoot (snd (os_Open p st)) = originalRoot st"
  by (simp add: os_Open_def Let_def split: option.splits sum.splits)

lemma os_Remove_frame:
  "sessions (snd (os_Remove p st)) = sessions st \<and>
   originalRoot (snd (os_Remove p st)) = originalRoot st"
  by (simp add: os_Remove_def Let_def unlinkNode_def split: option.splits node.splits sum.splits)

lemma os_Mkdir_frame:
  "sessions (snd (os_Mkdir p st)) = sessions st \<and>
   originalRoot (snd (os_Mkdir p st)) = originalRoot st"
  by (simp add: os_Mkdir_def Let_def split: option.splits node.splits sum.splits)

lemma listFiles_frame:
  "sessions (snd (listFiles r e d st)) = sessions st \<and>
   originalRoot (snd (listFiles r e d st)) = originalRoot st"
  by (simp add: listFiles_def split: sum.splits)

lemma uploadFile_frame:
  "sessions (snd (uploadFile r e d st)) = sessions st \<and>
   originalRoot (snd (uploadFile r e d st)) = originalRoot st"
proof (cases "form r")
  case (FilePart filename content)
  obtain res st1 where c: "os_Create (filepath_Join d filename) content st = (res, st1)"
    by (metis surj_pair)
  with os_Create_frame[of "filepath_Join d filename" content st] FilePart show ?thesis
    by (cases res) (simp_all add: uploadFile_def Let_def)
qed (simp_all add: uploadFile_def)

lemma downloadFile_frame:
  "sessions (snd (downloadFile r e d st)) = sessions st \<and>
   originalRoot (snd (downloadFile r e d st)) = originalRoot st"
proof -
  obtain res st1 where c: "os_Open (filepath_Join d (q_file r)) st = (res, st1)"
    by (metis surj_pair)
  with os_Open_frame[of "filepath_Join d (q_file r)" st] show ?thesis
    by (simp add: downloadFile_def Let_def split: sum.splits node.splits)
qed

lemma deleteFile_frame:
  "sessions (snd (deleteFile r e d st)) = sessions st \<and>
   originalRoot (snd (deleteFile r e d st)) = originalRoot st"
proof -
  obtain res st1 where c: "os_Remove (filepath_Join d (q_file r)) st = (res, st1)"
    by (metis surj_pair)
  with os_Remove_frame[of "filepath_Join d (q_file r)" st] show ?thesis
    by (cases res) (simp_all add: deleteFile_def Let_def)
qed

lemma createDirectory_frame:
  "sessions (snd (createDirectory r e d st)) = sessions st \<and>
   originalRoot (snd (createDirectory r e d st)) = originalRoot st"
proof -
  let ?p = "filepath_Clean (filepath_Join d (strings_Trim (q_dir r) trimCutset))"
  obtain res st1 where c: "os_Mkdir ?p st = (res, st1)"
    by (metis surj_pair)
  with os_Mkdir_frame[of ?p st] show ?thesis
    by (cases res) (simp_all add: createDirectory_def Let_def)
qed

lemma cdTarget_IsAbs:
  "filepath_IsAbs d \<Longrightarrow> filepath_IsAbs (originalRoot st) \<Longrightarrow> filepath_IsAbs (cdTarget st d n)"
  by (simp add: cdTarget_def Dir_IsAbs Clean_IsAbs Join_IsAbs)

lemma changeDirectory_committed:
  assumes "changeDirectory r e d st = ((200, msg), st')"
  shows "\<exists>v. cookie r = Some v \<and>
             isPathSafe st (cdTarget st d (strings_Trim (q_dir r) trimCutset)) \<and>
             originalRoot st' = originalRoot st \<and>
             sessions st' = (sessions st)
               (v \<mapsto> \<lparr>CurrentDir = cdTarget st d (strings_Trim (q_dir r) trimCutset),
                       LastAccess = clock2 e\<rparr>)"
proof -
  from changeDirectory_success[OF assms] obtain v newDir where
    f: "cookie r = Some v" "newDir = cdTarget st d (strings_Trim (q_dir r) trimCutset)"
       "isPathSafe st newDir"
       "st' = st\<lparr>sessions := (sessions st)(v \<mapsto> \<lparr>CurrentDir = newDir, LastAccess = clock2 e\<rparr>),
                  cwd := filepath_Abs (cwd st) newDir,
                  oscalls := oscalls st @ [Stat newDir, Chdir newDir]\<rparr>"
    by blast
  from f(4) have "originalRoot st' = originalRoot st"
    and "sessions st' = (sessions st)(v \<mapsto> \<lparr>CurrentDir = newDir, LastAccess = clock2 e\<rparr>)"
    by simp_all
  with f(1,2,3) show ?thesis by simp
qed

lemma changeDirectory_root:
  "originalRoot (snd (changeDirectory r e d st)) = originalRoot st"
proof -
  obtain code msg st' where eq: "changeDirectory r e d st = ((code, msg), st')"
    by (metis surj_pair)
  show ?thesis
  proof (cases "code = 200")
    case True
    with eq have "changeDirectory r e d st = ((200, msg), st')" by simp
    from changeDirectory_committed[OF this] eq show ?thesis by auto
  next
    case False
    with eq changeDirectory_failure[of r e d st code msg st'] show ?thesis by simp
  qed
qed

lemma changeDirectory_confined:
  assumes "storeConfined st" and "filepath_IsAbs d"
  shows "storeConfined (snd (changeDirectory r e d st))"
proof -
  obtain code msg st' where eq: "changeDirectory r e d st = ((code, msg), st')"
    by (metis surj_pair)
  have root: "originalRoot st' = originalRoot st"
    using changeDirectory_root[of r e d st] eq by simp
  have abs: "filepath_IsAbs (originalRoot st)"
    using assms(1) by (simp add: storeConfined_def)
  let ?newDir = "cdTarget st d (strings_Trim (q_dir r) trimCutset)"
  have "storeConfined st'"
  proof (cases "code = 200")
    case True
    with eq have "changeDirectory r e d st = ((200, msg), st')" by simp
    from changeDirectory_committed[OF this] obtain v where
      s: "isPathSafe st ?newDir"
         "sessions st' = (sessions st)(v \<mapsto> \<lparr>CurrentDir = ?newDir, LastAccess = clock2 e\<rparr>)"
      by blast
    have n: "filepath_IsAbs ?newDir"
      using assms(2) abs by (simp add: cdTarget_IsAbs)
    show ?thesis
    proof (rule storeConfined_step[OF assms(1) root])
      fix tok sess assume a: "sessions st' tok = Some sess"
      show "(\<exists>s0. sessions st tok = Some s0 \<and> CurrentDir s0 = CurrentDir sess) \<or>
            (filepath_IsAbs (CurrentDir sess) \<and> isPathSafe st (CurrentDir sess))"
      proof (cases "tok = v")
        case True
        with a s(2) have "CurrentDir sess = ?newDir" by auto
        with n s(1) show ?thesis by simp
      next
        case False
        with a s(2) have "sessions st tok = Some sess" by simp
        then show ?thesis by simp
      qed
    qed
  next
    case False
    with eq changeDirectory_failure[of r e d st code msg st'] have same: "sessions st' = sessions st"
      by simp
    show ?thesis
    proof (rule storeConfined_sub[OF assms(1) root])
      fix tok sess assume "sessions st' tok = Some sess"
      with same show "sessions st tok = Some sess" by simp
    qed
  qed
  with eq show ?thesis by simp
qed

lemma handleQuit_sessions:
  "sessions (snd (handleQuit r e d st)) tok = Some sess \<Longrightarrow> sessions st tok = Some sess"
  by (cases "cookie r") (simp_all add: handleQuit_def split: if_splits)

lemma handleQuit_confined:
  assumes "storeConfined st"
  shows "storeConfined (snd (handleQuit r e d st))"
proof (rule storeConfined_sub[OF assms])
  show "originalRoot (snd (handleQuit r e d st)) = originalRoot st"
    by (cases "cookie r") (simp_all add: handleQuit_def)
next
  fix tok sess assume "sessions (snd (handleQuit r e d st)) tok = Some sess"
  then show "sessions st tok = Some sess" by (rule handleQuit_sessions)
qed

lemma frame_confined:
  assumes "storeConfined st"
      and "sessions st' = sessions st \<and> originalRoot st' = originalRoot st"
  shows "storeConfined st'"
proof (rule storeConfined_sub[OF assms(1)])
  show "originalRoot st' = originalRoot st"
    using assms(2) by simp
next
  fix tok sess assume "sessions st' tok = Some sess"
  with assms(2) show "sessions st tok = Some sess" by simp
qed

lemma route_confined:
  assumes "storeConfined st" and "filepath_IsAbs d"
  shows "storeConfined (snd (route ep r e d st))"
proof (cases ep)
  case Files
  then show ?thesis using frame_confined[OF assms(1) listFiles_frame] by simp
next
  case Upload
  then show ?thesis using frame_confined[OF assms(1) uploadFile_frame] by simp
next
  case Download
  then show ?thesis using frame_confined[OF assms(1) downloadFile_frame] by simp
next
  case Delete
  then show ?thesis using frame_confined[OF assms(1) deleteFile_frame] by simp
next
  case Cd
  then show ?thesis using changeDirectory_confined[OF assms] by simp
next
  case MkdirEp
  then show ?thesis using frame_confined[OF assms(1) createDirectory_frame] by simp
next
  case Quit
  then show ?thesis using handleQuit_confined[OF assms(1)] by simp
qed

lemma withSession_state:
  "bindSession r e st = (sid, sc, st1) \<Longrightarrow>
   snd (withSession fn r e st) = snd (fn r e (CurrentDir (readSession sid st1)) st1)"
  by (simp add: withSession_def callHandler_def split: prod.splits)

lemma cleanupSessions_sessions:
  "sessions (cleanupSessions now st) tok = Some sess \<Longrightarrow> sessions st tok = Some sess"
  by (cases "sessions st tok") (simp_all add: cleanupSessions_def split: if_splits)

lemma cleanupSessions_confined:
  assumes "storeConfined st"
  shows "storeConfined (cleanupSessions now st)"
proof (rule storeConfined_sub[OF assms])
  show "originalRoot (cleanupSessions now st) = originalRoot st"
    by (simp add: cleanupSessions_def)
next
  fix tok sess assume "sessions (cleanupSessions now st) tok = Some sess"
  then show "sessions st tok = Some sess" by (rule cleanupSessions_sessions)
qed

lemma step_confined: "storeConfined st \<Longrightarrow> storeConfined (step ev st)"
proof (cases ev)
  case (Req ep r e)
  assume c: "storeConfined st"
  obtain sid sc st1 where b: "bindSession r e st = (sid, sc, st1)"
    by (metis surj_pair)
  from bindSession_confined[OF c b] route_confined[of st1 "CurrentDir (readSession sid st1)" ep r e]
  show ?thesis
    using Req withSession_state[OF b, of "route ep"] by simp
next
  case (Sweep now)
  assume "storeConfined st"
  then show ?thesis using Sweep by (simp add: cleanupSessions_confined)
qed

lemma run_confined: "storeConfined st \<Longrightarrow> storeConfined (run evs st)"
  by (induction evs arbitrary: st) (simp_all add: step_confined)

text \<open>
  What the code keeps: when requests and sweeps are served one after the other, every
  stored directory passes \<open>isPathSafe\<close>.
\<close>

lemma stored_dirs_pass_isPathSafe:
  assumes "filepath_IsAbs wd"
      and "sessions (run evs (startServer wd rootFolder fs)) tok = Some sess"
  shows "isPathSafe (run evs (startServer wd rootFolder fs)) (CurrentDir sess)"
  using run_confined[OF startServer_confined[OF assms(1)], of evs rootFolder fs] assms(2)
  by (simp add: storeConfined_def)

text \<open>
  Claim C2. With root \<open>/srv/data\<close>, a session created at the root that changes to
  \<open>../data2\<close> holds \<open>/srv/data2\<close> afterwards: the directory passes \<open>isPathSafe\<close> and
  is neither the root nor below it.
\<close>

theorem session_holds_sibling:
  "originalRoot siblingServer = ''/srv/data'' \<and>
   sessions siblingServer ''c0de'' = Some \<lparr>CurrentDir = ''/srv/data2'', LastAccess = 2001\<rparr> \<and>
   isPathSafe siblingServer ''/srv/data2'' \<and>
   \<not> isWithinRoot (cwd siblingServer) ''/srv/data2'' (originalRoot siblingServer)"
  unfolding siblingServer_def example_defs by code_simp

text \<open>
  When a \<open>/quit\<close> with the same cookie runs between the two critical sections of the
  wrapper, the handler works from the empty directory: the change to \<open>.././\<close> commits
  the relative path \<open>..\<close> and moves the process to \<open>/srv/data\<close>, where the stored
  directory no longer passes \<open>isPathSafe\<close>.
\<close>

lemma race_commits_relative_dir:
  "sessions fooServer ''c0de'' = Some \<lparr>CurrentDir = ''/srv/data/foo'', LastAccess = 2001\<rparr> \<and>
   cwd fooServer = ''/srv/data/foo'' \<and>
   fst (bindSession (request (Some ''c0de'') ''.././'' []) (exampleEnv ''beef'' 3000) fooServer)
     = ''c0de'' \<and>
   sessions (step (Req Quit (request (Some ''c0de'') [] []) (exampleEnv ''f00d'' 3000))
               (snd (snd (bindSession (request (Some ''c0de'') ''.././'' [])
                            (exampleEnv ''beef'' 3000) fooServer)))) ''c0de'' = None \<and>
   sessions raceServer ''c0de'' = Some \<lparr>CurrentDir = ''..'', LastAccess = 3001\<rparr> \<and>
   cwd raceServer = ''/srv/data'' \<and>
   \<not> isPathSafe raceServer ''..''"
  unfolding raceServer_def fooServer_def example_defs by code_simp

section \<open>The parent of the root\<close>

lemma step_root: "originalRoot (step ev st) = originalRoot st"
proof (cases ev)
  case (Req ep r e)
  obtain sid sc st1 where b: "bindSession r e st = (sid, sc, st1)"
    by (metis surj_pair)
  then have r1: "originalRoot st1 = originalRoot st"
    by (auto simp: bindSession_def split: option.splits)
  have "originalRoot (snd (route ep r e d st1)) = originalRoot st1" for d
    by (cases ep)
       (simp_all add: listFiles_frame uploadFile_frame downloadFile_frame deleteFile_frame
          createDirectory_frame changeDirectory_root handleQuit_def split: option.splits)
  with r1 Req withSession_state[OF b, of "route ep"] show ?thesis by simp
next
  case (Sweep now)
  then show ?thesis by (simp add: cleanupSessions_def)
qed

lemma run_root: "originalRoot (run evs st) = originalRoot st"
  by (induction evs arbitrary: st) (simp_all add: step_root)

lemma parent_of_root_unsafe:
  assumes "filepath_IsAbs root" and "filepath_Clean root = root" and "originalRoot st = root"
      and "isPathSafe st (filepath_Dir root)"
  shows "root = [sep]"
proof -
  have d: "filepath_IsAbs (filepath_Dir root)"
    using assms(1) by (rule Dir_IsAbs)
  have "filepath_Clean (filepath_Dir root) = filepath_Dir root"
    unfolding filepath_Dir_def using assms(1) by (intro Clean_idem uptoLastSep_IsAbs)
  with assms d have "strings_HasPrefix (strings_ToLower (filepath_Dir root)) (strings_ToLower root)"
    by (simp add: isPathSafe_abs)
  then have "length root \<le> length (filepath_Dir root)"
    using HasPrefix_length by fastforce
  with assms(1,2) show ?thesis by (rule Dir_shorter)
qed

text \<open>
  Claim C5. In any state the server reaches, a directory change to \<open>..\<close> by a handler
  whose current directory is the root either fails, with the store as it was, or the
  root is \<open>/\<close> and the directory committed is the root again. The handler has no case
  for the root: it computes the parent, and unless the root is \<open>/\<close> the path check
  refuses the parent.
\<close>

theorem cd_parent_of_root_rejected:
  assumes "filepath_IsAbs wd"
      and "st = run evs (startServer wd rootFolder fs)"
      and "strings_Trim (q_dir r) trimCutset = ''..''"
  shows "(originalRoot st \<noteq> ''/'' \<longrightarrow>
            \<not> isPathSafe st (cdTarget st (originalRoot st) ''..'')) \<and>
         ((fst (fst (changeDirectory r e (originalRoot st) st)) \<noteq> 200 \<and>
           sessions (snd (changeDirectory r e (originalRoot st) st)) = sessions st) \<or>
          (originalRoot st = ''/'' \<and>
           (\<exists>v. cookie r = Some v \<and>
              sessions (snd (changeDirectory r e (originalRoot st) st)) =
                (sessions st)(v \<mapsto> \<lparr>CurrentDir = originalRoot st, LastAccess = clock2 e\<rparr>))))"
proof (rule conjI)
  let ?root = "originalRoot st"
  have root: "?root = filepath_Abs wd rootFolder"
    using assms(2) by (simp add: run_root startServer_def)
  have abs: "filepath_IsAbs ?root" and clean: "filepath_Clean ?root = ?root"
    using assms(1) by (simp_all add: root Abs_IsAbs Abs_clean)
  show "?root \<noteq> ''/'' \<longrightarrow> \<not> isPathSafe st (cdTarget st ?root ''..'')"
    using parent_of_root_unsafe[OF abs clean refl] by (auto simp: cdTarget_def sep_def)
  obtain code msg st' where eq: "changeDirectory r e ?root st = ((code, msg), st')"
    by (metis surj_pair)
  show "(fst (fst (changeDirectory r e ?root st)) \<noteq> 200 \<and>
           sessions (snd (changeDirectory r e ?root st)) = sessions st) \<or>
          (?root = ''/'' \<and>
           (\<exists>v. cookie r = Some v \<and>
              sessions (snd (changeDirectory r e ?root st)) =
                (sessions st)(v \<mapsto> \<lparr>CurrentDir = ?root, LastAccess = clock2 e\<rparr>)))"
  proof (cases "code = 200")
    case False
    with eq changeDirectory_failure[of r e ?root st code msg st'] show ?thesis by simp
  next
    case True
    with eq have "changeDirectory r e ?root st = ((200, msg), st')" by simp
    from changeDirectory_committed[OF this] obtain v where
      c: "cookie r = Some v"
         "isPathSafe st (cdTarget st ?root (strings_Trim (q_dir r) trimCutset))"
         "sessions st' = (sessions st)
            (v \<mapsto> \<lparr>CurrentDir = cdTarget st ?root (strings_Trim (q_dir r) trimCutset),
                    LastAccess = clock2 e\<rparr>)"
      by blast
    have "cdTarget st ?root (strings_Trim (q_dir r) trimCutset) = filepath_Dir ?root"
      by (simp add: assms(3) cdTarget_def)
    with c have
      s: "cookie r = Some v" "isPathSafe st (filepath_Dir ?root)"
         "sessions st' = (sessions st)(v \<mapsto> \<lparr>CurrentDir = filepath_Dir ?root, LastAccess = clock2 e\<rparr>)"
      by simp_all
    from parent_of_root_unsafe[OF abs clean refl s(2)] have r1: "?root = [sep]" .
    then have "filepath_Dir ?root = ?root" by (simp add: Dir_root)
    with s r1 eq show ?thesis by (simp add: sep_def)
  qed
qed

theorem cd_parent_of_root_rejected_witness:
  "fst (fst (changeDirectory (request (Some ''c0de'') ''/../'' []) (exampleEnv ''beef'' 2000)
               (originalRoot sessionServer) sessionServer)) \<noteq> 200 \<and>
   sessions (snd (changeDirectory (request (Some ''c0de'') ''/../'' []) (exampleEnv ''beef'' 2000)
               (originalRoot sessionServer) sessionServer)) = sessions sessionServer"
proof -
  have a: "filepath_IsAbs ''/home/ob''"
    by (simp add: sep_def)
  have b: "sessionServer = run [Req Files (request None [] []) (exampleEnv ''c0de'' 1000)]
             (startServer ''/home/ob'' ''/srv/data'' exampleFiles)"
    by (simp add: sessionServer_def exampleServer_def)
  have c: "strings_Trim (q_dir (request (Some ''c0de'') ''/../'' [])) trimCutset = ''..''"
    unfolding example_defs by code_simp
  have d: "originalRoot sessionServer \<noteq> ''/''"
    unfolding example_defs by code_simp
  from cd_parent_of_root_rejected[OF a b c, of "exampleEnv ''beef'' 2000"] d
  show ?thesis by blast
qed

end
